theory Spec2Isabelle
  imports Complex_Main "HOL-Library.AList"
begin

section \<open>JavaScript values used by the two classes\<close>

text \<open>
  Numbers are modelled as \<^typ>\<open>real\<close>: the samples are finite durations, and rounding,
  \<open>NaN\<close> and the infinities of IEEE doubles are outside the model. Names are strings.
  A failed call is a value of type \<open>error\<close>. The faults these classes can run into are a
  \<open>TypeError\<close> (calling something that is not a function, or reading a property of
  \<open>null\<close>) and a \<open>RangeError\<close> (a call with more arguments than the engine accepts).
\<close>

datatype error = TypeError | RangeError

subsection \<open>Plain objects used as dictionaries\<close>

text \<open>
  \<open>componentLoadTimes\<close>, \<open>elementTimings\<close> and the two statistics tables of a report are
  plain objects (\<open>{}\<close>). Their own properties are kept as an association list in creation
  order. A property read \<open>obj[k]\<close> first looks at the own properties and then at
  \<open>Object.prototype\<close>, whose members are all truthy and none of which is an array.
\<close>

type_synonym 'v object = "(string \<times> 'v) list"

definition Object_prototype_keys :: "string list" where
  "Object_prototype_keys =
    [''constructor'', ''__defineGetter__'', ''__defineSetter__'', ''hasOwnProperty'',
     ''__lookupGetter__'', ''__lookupSetter__'', ''isPrototypeOf'', ''propertyIsEnumerable'',
     ''toString'', ''valueOf'', ''__proto__'', ''toLocaleString'']"

datatype 'v property = Own 'v | Inherited | Undefined

definition get_property :: "'v object \<Rightarrow> string \<Rightarrow> 'v property" where
  "get_property obj k =
    (case map_of obj k of
       Some v \<Rightarrow> Own v
     | None \<Rightarrow> if k \<in> set Object_prototype_keys then Inherited else Undefined)"

text \<open>
  \<open>obj[k] = v\<close> overwrites an own property in place or creates it behind the existing ones.
  (An assignment to the key \<open>__proto__\<close> would set the prototype instead; the key never
  reaches an assignment here, since a read of it yields \<open>Object.prototype\<close>, which is truthy
  and has no \<open>push\<close>.)
\<close>

definition set_property :: "'v object \<Rightarrow> string \<Rightarrow> 'v \<Rightarrow> 'v object" where
  "set_property obj k v = AList.update k v obj"

text \<open>
  \<open>Object.entries\<close> lists the own properties: first the keys that are array indices
  (canonical decimal numerals below \<open>2^32 - 1\<close>) in ascending numeric order, then all
  other keys in creation order.
\<close>

definition is_digit :: "char \<Rightarrow> bool" where
  "is_digit c = (c \<in> set ''0123456789'')"

definition decimal_value :: "string \<Rightarrow> nat" where
  "decimal_value s = foldl (\<lambda>n c. 10 * n + (of_char c - 48)) 0 s"

definition array_index :: "string \<Rightarrow> nat option" where
  "array_index k =
    (if k \<noteq> [] \<and> list_all is_digit k \<and> (if hd k = CHR ''0'' then k = ''0'' else True)
        \<and> decimal_value k < 2 ^ 32 - 1
     then Some (decimal_value k) else None)"

definition index_rank :: "string \<times> 'v \<Rightarrow> nat" where
  "index_rank e = (case array_index (fst e) of Some i \<Rightarrow> i | None \<Rightarrow> 0)"

definition Object_entries :: "'v object \<Rightarrow> (string \<times> 'v) list" where
  "Object_entries obj =
     sort_key index_rank (filter (\<lambda>e. array_index (fst e) \<noteq> None) obj)
     @ filter (\<lambda>e. array_index (fst e) = None) obj"

section \<open>The metrics collector (class PerformanceMetrics)\<close>

record Interaction =
  name :: string
  startTime :: real
  endTime :: "real option"
  duration :: "real option"

text \<open>
  The interaction history is an array object that the collector shares with every report
  it hands out, so it lives in a store of arrays addressed by references. The sample
  series are never handed out and are kept by value.
\<close>

type_synonym ref = nat

record store =
  arrays :: "ref \<Rightarrow> Interaction list"
  next_ref :: ref

definition new_array :: "store \<Rightarrow> ref \<times> store" where
  "new_array h = (next_ref h, h\<lparr>arrays := (arrays h)(next_ref h := []), next_ref := Suc (next_ref h)\<rparr>)"

definition push :: "ref \<Rightarrow> Interaction \<Rightarrow> store \<Rightarrow> store" where
  "push r x h = h\<lparr>arrays := (arrays h)(r := arrays h r @ [x])\<rparr>"

record Metrics =
  interactions :: ref
  componentLoadTimes :: "real list object"
  elementTimings :: "real list object"

record PerformanceMetrics =
  metrics :: Metrics
  currentInteraction :: "Interaction option"

definition PerformanceMetrics_constructor :: "store \<Rightarrow> store \<times> PerformanceMetrics" where
  "PerformanceMetrics_constructor h =
    (case new_array h of
       (r, h') \<Rightarrow>
         (h', \<lparr>metrics = \<lparr>interactions = r, componentLoadTimes = [], elementTimings = []\<rparr>,
               currentInteraction = None\<rparr>))"

text \<open>
  \<open>startInteraction\<close> and \<open>endInteraction\<close> read the clock \<open>performance.now()\<close> once; the
  reading is the argument \<open>now\<close>. \<open>startInteraction\<close> returns the in-flight record, here its
  value at the time of the return. \<open>endInteraction\<close> writes the two fields of the in-flight
  record, pushes it onto the history array and empties the slot; without an interaction in
  flight it does nothing.
\<close>

definition startInteraction ::
  "string \<Rightarrow> real \<Rightarrow> PerformanceMetrics \<Rightarrow> PerformanceMetrics \<times> Interaction" where
  "startInteraction n now this =
    (let i = \<lparr>name = n, startTime = now, endTime = None, duration = None\<rparr>
     in (this\<lparr>currentInteraction := Some i\<rparr>, i))"

definition endInteraction ::
  "real \<Rightarrow> store \<times> PerformanceMetrics \<Rightarrow> store \<times> PerformanceMetrics" where
  "endInteraction now w =
    (case w of (h, this) \<Rightarrow>
      (case currentInteraction this of
         None \<Rightarrow> (h, this)
       | Some i \<Rightarrow>
           (let i1 = i\<lparr>endTime := Some now\<rparr>;
                i2 = i1\<lparr>duration := Some (now - startTime i1)\<rparr>
            in (push (interactions (metrics this)) i2 h, this\<lparr>currentInteraction := None\<rparr>))))"

text \<open>
  Both recording methods have the same body, each on its own table: \<open>record_sample\<close>.
  The guard \<open>!obj[name]\<close> is true only for an undefined property (an array is truthy, and
  so is every member of \<open>Object.prototype\<close>). For a name inherited from \<open>Object.prototype\<close>
  no series is created, and the call of \<open>push\<close> on the inherited member raises before
  anything has been written.
\<close>

definition record_sample :: "real list object \<Rightarrow> string \<Rightarrow> real \<Rightarrow> error + real list object" where
  "record_sample obj n d =
    (let obj1 = (if get_property obj n = Undefined then set_property obj n [] else obj)
     in case get_property obj1 n of
          Own series \<Rightarrow> Inr (set_property obj1 n (series @ [d]))
        | Inherited \<Rightarrow> Inl TypeError
        | Undefined \<Rightarrow> Inl TypeError)"

definition recordComponentLoad ::
  "string \<Rightarrow> real \<Rightarrow> PerformanceMetrics \<Rightarrow> error + PerformanceMetrics" where
  "recordComponentLoad componentName d this =
    (case record_sample (componentLoadTimes (metrics this)) componentName d of
       Inl e \<Rightarrow> Inl e
     | Inr obj \<Rightarrow> Inr (this\<lparr>metrics := (metrics this)\<lparr>componentLoadTimes := obj\<rparr>\<rparr>))"

definition recordElementTiming ::
  "string \<Rightarrow> real \<Rightarrow> PerformanceMetrics \<Rightarrow> error + PerformanceMetrics" where
  "recordElementTiming elementName d this =
    (case record_sample (elementTimings (metrics this)) elementName d of
       Inl e \<Rightarrow> Inl e
     | Inr obj \<Rightarrow> Inr (this\<lparr>metrics := (metrics this)\<lparr>elementTimings := obj\<rparr>\<rparr>))"

subsection \<open>Statistics\<close>

record Stats =
  min_stat :: real
  max_stat :: real
  avg :: real
  count :: nat

text \<open>
  \<open>Math.min(...data)\<close> and \<open>Math.max(...data)\<close> are evaluated behind the guard only, on a
  non-empty array: \<open>Math_min x xs\<close> is \<open>Math.min(x, ...xs)\<close>. \<open>reduce\<close> adds the samples from
  the left, starting at \<open>0\<close>.
\<close>

definition Math_min :: "real \<Rightarrow> real list \<Rightarrow> real" where
  "Math_min x xs = fold min xs x"

definition Math_max :: "real \<Rightarrow> real list \<Rightarrow> real" where
  "Math_max x xs = fold max xs x"

definition reduce_add :: "real list \<Rightarrow> real" where
  "reduce_add data = foldl (\<lambda>a b. a + b) 0 data"

text \<open>
  The argument \<open>data\<close> of \<open>getStats\<close> is an array or \<open>undefined\<close> (\<open>None\<close>); the result is a
  summary or \<open>null\<close> (\<open>None\<close>), or a fault. The spread \<open>...data\<close> passes every sample as an
  argument of its own, and an engine accepts only so many arguments in a call: with more,
  the call raises a \<open>RangeError\<close>. The bound is not in the source; it belongs to the engine
  at the time of the call and is the parameter \<open>limit\<close>, the greatest number of arguments
  that the call accepts. The field \<open>min\<close> is evaluated first, so a series that is too long
  raises there, before \<open>max\<close>, \<open>avg\<close> and \<open>count\<close>; \<open>reduce\<close> and \<open>length\<close> have no such bound.
\<close>

fun getStats :: "nat \<Rightarrow> real list option \<Rightarrow> error + Stats option" where
  "getStats limit None = Inr None"
| "getStats limit (Some []) = Inr None"
| "getStats limit (Some (x # xs)) =
     (if limit < length (x # xs) then Inl RangeError
      else Inr (Some \<lparr>min_stat = Math_min x xs, max_stat = Math_max x xs,
                      avg = reduce_add (x # xs) / real (length (x # xs)),
                      count = length (x # xs)\<rparr>))"

subsection \<open>The performance report\<close>

text \<open>
  The report's field \<open>interactions\<close> is the collector's own array (a reference), here
  \<open>report_interactions\<close>; \<open>report_timestamp\<close> is the field \<open>timestamp\<close>. The two tables
  are filled by the loops over \<open>Object.entries\<close>; a \<open>RangeError\<close> of \<open>getStats\<close> ends the
  loop and the method, and no report is returned. The argument \<open>date\<close> is the value of
  \<open>new Date().toISOString()\<close>, the argument \<open>limit\<close> the engine's bound on the arguments of
  a call. The method writes to nothing: the collector is returned as it was, next to the
  report or the fault.
\<close>

record Report =
  report_interactions :: ref
  componentStats :: "Stats option object"
  elementStats :: "Stats option object"
  report_timestamp :: string

fun stats_loop ::
  "nat \<Rightarrow> (string \<times> real list) list \<Rightarrow> Stats option object \<Rightarrow> error + Stats option object" where
  "stats_loop limit [] table = Inr table"
| "stats_loop limit (e # es) table =
     (case getStats limit (Some (snd e)) of
        Inl err \<Rightarrow> Inl err
      | Inr s \<Rightarrow> stats_loop limit es (set_property table (fst e) s))"

definition generatePerformanceReport ::
  "nat \<Rightarrow> string \<Rightarrow> PerformanceMetrics \<Rightarrow> PerformanceMetrics \<times> (error + Report)" where
  "generatePerformanceReport limit date this =
    (this,
     case stats_loop limit (Object_entries (componentLoadTimes (metrics this))) [] of
       Inl err \<Rightarrow> Inl err
     | Inr componentStats' \<Rightarrow>
         (case stats_loop limit (Object_entries (elementTimings (metrics this))) [] of
            Inl err \<Rightarrow> Inl err
          | Inr elementStats' \<Rightarrow>
              Inr \<lparr>report_interactions = interactions (metrics this),
                   componentStats = componentStats',
                   elementStats = elementStats',
                   report_timestamp = date\<rparr>))"

text \<open>Reading \<open>report.interactions\<close> dereferences the array in the store of that moment.\<close>

definition read_interactions :: "store \<Rightarrow> Report \<Rightarrow> Interaction list" where
  "read_interactions h r = arrays h (report_interactions r)"

definition history :: "store \<times> PerformanceMetrics \<Rightarrow> Interaction list" where
  "history w = arrays (fst w) (interactions (metrics (snd w)))"

subsection \<open>Sequences of calls\<close>

text \<open>
  A caller drives the collector by a sequence of method calls. Each call comes with the
  clock reading at the time of the call; a call of \<open>generatePerformanceReport\<close> also with
  the engine's bound on arguments and the date. A call that raises leaves the collector as
  it was (both recording methods raise before their first write, and the report method
  writes nothing), and the caller may go on.
\<close>

datatype call =
    StartInteraction string
  | EndInteraction
  | RecordComponentLoad string real
  | RecordElementTiming string real
  | GeneratePerformanceReport nat string

fun exec :: "real \<times> call \<Rightarrow> store \<times> PerformanceMetrics \<Rightarrow> store \<times> PerformanceMetrics" where
  "exec (now, StartInteraction n) (h, this) = (h, fst (startInteraction n now this))"
| "exec (now, EndInteraction) (h, this) = endInteraction now (h, this)"
| "exec (now, RecordComponentLoad n d) (h, this) =
     (case recordComponentLoad n d this of Inl e \<Rightarrow> (h, this) | Inr this' \<Rightarrow> (h, this'))"
| "exec (now, RecordElementTiming n d) (h, this) =
     (case recordElementTiming n d this of Inl e \<Rightarrow> (h, this) | Inr this' \<Rightarrow> (h, this'))"
| "exec (now, GeneratePerformanceReport limit date) (h, this) =
     (h, fst (generatePerformanceReport limit date this))"

definition run :: "(real \<times> call) list \<Rightarrow> store \<times> PerformanceMetrics \<Rightarrow> store \<times> PerformanceMetrics" where
  "run calls w = fold exec calls w"

text \<open>Recording a whole series under one name, stopping at the first call that raises.\<close>

fun record_loads :: "string \<Rightarrow> real list \<Rightarrow> PerformanceMetrics \<Rightarrow> error + PerformanceMetrics" where
  "record_loads n [] this = Inr this"
| "record_loads n (d # ds) this =
     (case recordComponentLoad n d this of Inl e \<Rightarrow> Inl e | Inr this' \<Rightarrow> record_loads n ds this')"

section \<open>The report builder (class HTMLReportGenerator)\<close>

text \<open>
  The screenshot's field \<open>name\<close> is \<open>shot_name\<close>. The validation results are the four
  counts (\<open>total_checks\<close> is the field \<open>total\<close>); \<open>null\<close> is \<open>None\<close>. The performance data is
  stored and never read.
\<close>

record Screenshot =
  shot_name :: string
  dataUrl :: string
  timestamp :: string

record ValidationResults =
  total_checks :: int
  successful :: int
  failed :: int
  skipped :: int

record HTMLReportGenerator =
  screenshots :: "Screenshot list"
  performanceData :: "Report option"
  validationResults :: "ValidationResults option"

definition HTMLReportGenerator_constructor :: HTMLReportGenerator where
  "HTMLReportGenerator_constructor =
     \<lparr>screenshots = [], performanceData = None, validationResults = None\<rparr>"

definition addScreenshot :: "string \<Rightarrow> string \<Rightarrow> string \<Rightarrow> HTMLReportGenerator \<Rightarrow> HTMLReportGenerator" where
  "addScreenshot n url date this =
     this\<lparr>screenshots := screenshots this @ [\<lparr>shot_name = n, dataUrl = url, timestamp = date\<rparr>]\<rparr>"

definition setPerformanceData :: "Report \<Rightarrow> HTMLReportGenerator \<Rightarrow> HTMLReportGenerator" where
  "setPerformanceData data this = this\<lparr>performanceData := Some data\<rparr>"

definition setValidationResults :: "ValidationResults \<Rightarrow> HTMLReportGenerator \<Rightarrow> HTMLReportGenerator" where
  "setValidationResults results this = this\<lparr>validationResults := Some results\<rparr>"

subsection \<open>Numbers in template literals\<close>

text \<open>
  A substitution \<open>${n}\<close> of an integer count prints its decimal numeral, with a minus sign
  for a negative one (the counts stay far below \<open>10^21\<close>, where the notation would change).
\<close>

fun digits :: "nat \<Rightarrow> string" where
  "digits n = (if n < 10 then [''0123456789'' ! n] else digits (n div 10) @ [''0123456789'' ! (n mod 10)])"

declare digits.simps [simp del]

definition ToString :: "int \<Rightarrow> string" where
  "ToString i = (if i < 0 then CHR ''-'' # digits (nat (- i)) else digits (nat i))"

subsection \<open>The document\<close>

text \<open>
  The template literal of \<open>generateReportHTML\<close>, cut into its sections at the blank lines
  of the source. Every line ends with a line feed; the substitutions stand where the
  source has them.
\<close>

definition document_head :: "string" where
  "document_head =
     ''\<newline>'' @
     ''      <!DOCTYPE html>\<newline>'' @
     ''      <html>\<newline>'' @
     ''      <head>\<newline>'' @
     ''        <title>Validation Report</title>\<newline>'' @
     ''        <link href=\"https://cdn.jsdelivr.net/npm/bootstrap@5.3.0/dist/css/bootstrap.min.css\" rel=\"stylesheet\">\<newline>'' @
     ''        <script src=\"https://cdn.jsdelivr.net/npm/chart.js\"></script>\<newline>'' @
     ''        <style>\<newline>'' @
     ''          .report-section { margin-bottom: 40px; }\<newline>'' @
     ''          .screenshot-thumbnail { \<newline>'' @
     ''            cursor: pointer; \<newline>'' @
     ''            transition: transform 0.2s;\<newline>'' @
     ''            margin: 5px;\<newline>'' @
     ''          }\<newline>'' @
     ''          .screenshot-thumbnail:hover { transform: scale(1.05); }\<newline>'' @
     ''          .modal-image { max-width: 100%; }\<newline>'' @
     ''        </style>\<newline>'' @
     ''      </head>\<newline>'' @
     ''      <body>\<newline>'' @
     ''        <div class=\"container mt-4\">\<newline>'' @
     ''          <h1 class=\"text-center mb-4\">Validation Report</h1>\<newline>'' @
     ''          \<newline>''"

definition summary_section :: "ValidationResults \<Rightarrow> string" where
  "summary_section r =
     ''          <div class=\"report-section\">\<newline>'' @
     ''            <h2>Validation Summary</h2>\<newline>'' @
     ''            <div class=\"row\">\<newline>'' @
     ''              <div class=\"col-md-6\">\<newline>'' @
     ''                <canvas id=\"summaryChart\"></canvas>\<newline>'' @
     ''              </div>\<newline>'' @
     ''              <div class=\"col-md-6\">\<newline>'' @
     ''                <table class=\"table table-bordered\">\<newline>'' @
     ''                  <tr><th>Total Checks</th><td>'' @
     ToString (total_checks r) @
     ''</td></tr>\<newline>'' @
     ''                  <tr><th>Successful</th><td>'' @
     ToString (successful r) @
     ''</td></tr>\<newline>'' @
     ''                  <tr><th>Failed</th><td>'' @
     ToString (failed r) @
     ''</td></tr>\<newline>'' @
     ''                  <tr><th>Skipped</th><td>'' @
     ToString (skipped r) @
     ''</td></tr>\<newline>'' @
     ''                </table>\<newline>'' @
     ''              </div>\<newline>'' @
     ''            </div>\<newline>'' @
     ''          </div>\<newline>''"

definition section_gap :: "string" where
  "section_gap =
     ''          \<newline>''"

definition performance_section :: "string" where
  "performance_section =
     ''          <div class=\"report-section\">\<newline>'' @
     ''            <h2>Performance Metrics</h2>\<newline>'' @
     ''            <div class=\"row\">\<newline>'' @
     ''              <div class=\"col-md-6\">\<newline>'' @
     ''                <h4>Component Load Times</h4>\<newline>'' @
     ''                <canvas id=\"componentLoadChart\"></canvas>\<newline>'' @
     ''              </div>\<newline>'' @
     ''              <div class=\"col-md-6\">\<newline>'' @
     ''                <h4>Interaction Times</h4>\<newline>'' @
     ''                <canvas id=\"interactionChart\"></canvas>\<newline>'' @
     ''              </div>\<newline>'' @
     ''            </div>\<newline>'' @
     ''          </div>\<newline>''"

definition screenshot_img :: "Screenshot \<Rightarrow> string" where
  "screenshot_img s =
     ''\<newline>'' @
     ''                <img src=\"'' @
     dataUrl s @
     ''\" \<newline>'' @
     ''                     class=\"screenshot-thumbnail img-thumbnail\" \<newline>'' @
     ''                     width=\"200\" \<newline>'' @
     ''                     data-bs-toggle=\"modal\" \<newline>'' @
     ''                     data-bs-target=\"#screenshotModal\"\<newline>'' @
     ''                     onclick=\"document.getElementById('modalImage').src='' @
     [CHR 0x27] @
     dataUrl s @
     [CHR 0x27] @
     ''\">\<newline>'' @
     ''              ''"

definition screenshots_section :: "Screenshot list \<Rightarrow> string" where
  "screenshots_section shots =
     ''          <div class=\"report-section\">\<newline>'' @
     ''            <h2>Screenshots</h2>\<newline>'' @
     ''            <div class=\"screenshot-gallery\">\<newline>'' @
     ''              '' @
     concat (map screenshot_img shots) @
     ''\<newline>'' @
     ''            </div>\<newline>'' @
     ''          </div>\<newline>''"

definition modal_section :: "string" where
  "modal_section =
     ''          <!-- Screenshot Modal -->\<newline>'' @
     ''          <div class=\"modal fade\" id=\"screenshotModal\" tabindex=\"-1\">\<newline>'' @
     ''            <div class=\"modal-dialog modal-xl\">\<newline>'' @
     ''              <div class=\"modal-content\">\<newline>'' @
     ''                <div class=\"modal-body text-center\">\<newline>'' @
     ''                  <img id=\"modalImage\" class=\"modal-image\">\<newline>'' @
     ''                </div>\<newline>'' @
     ''              </div>\<newline>'' @
     ''            </div>\<newline>'' @
     ''          </div>\<newline>'' @
     ''        </div>\<newline>''"

definition script_gap :: "string" where
  "script_gap =
     ''        \<newline>''"

definition script_section :: "ValidationResults \<Rightarrow> string" where
  "script_section r =
     ''        <script>\<newline>'' @
     ''          // Initialize charts\<newline>'' @
     ''          document.addEventListener('DOMContentLoaded', function() {\<newline>'' @
     ''            // Summary Chart\<newline>'' @
     ''            new Chart(document.getElementById('summaryChart'), {\<newline>'' @
     ''              type: 'doughnut',\<newline>'' @
     ''              data: {\<newline>'' @
     ''                labels: ['Success', 'Failed', 'Skipped'],\<newline>'' @
     ''                datasets: [{\<newline>'' @
     ''                  data: [\<newline>'' @
     ''                    '' @
     ToString (successful r) @
     '',\<newline>'' @
     ''                    '' @
     ToString (failed r) @
     '',\<newline>'' @
     ''                    '' @
     ToString (skipped r) @
     ''\<newline>'' @
     ''                  ],\<newline>'' @
     ''                  backgroundColor: ['#28a745', '#dc3545', '#ffc107']\<newline>'' @
     ''                }]\<newline>'' @
     ''              }\<newline>'' @
     ''            });\<newline>'' @
     ''            \<newline>'' @
     ''            // Performance Charts would be initialized here\<newline>'' @
     ''          });\<newline>'' @
     ''        </script>\<newline>''"

definition document_tail :: "string" where
  "document_tail =
     ''      </body>\<newline>'' @
     ''      </html>\<newline>'' @
     ''    ''"

text \<open>
  \<open>render_document\<close> is the value of the template literal for given validation results and
  screenshots. The substitutions are evaluated from left to right; the first one reads a
  field of \<open>this.validationResults\<close> and raises a \<open>TypeError\<close> when that is still \<open>null\<close>,
  so that no string is returned.
\<close>

definition render_document :: "ValidationResults \<Rightarrow> Screenshot list \<Rightarrow> string" where
  "render_document r shots =
     document_head @ summary_section r @ section_gap @ performance_section
     @ section_gap @ screenshots_section shots @ section_gap
     @ modal_section @ script_gap @ script_section r @ document_tail"

definition generateReportHTML :: "HTMLReportGenerator \<Rightarrow> error + string" where
  "generateReportHTML this =
    (case validationResults this of
       None \<Rightarrow> Inl TypeError
     | Some r \<Rightarrow> Inr (render_document r (screenshots this)))"

text \<open>Sequences of calls to the builder.\<close>

datatype builder_call =
    AddScreenshot string string string
  | SetPerformanceData Report
  | SetValidationResults ValidationResults

fun build :: "builder_call \<Rightarrow> HTMLReportGenerator \<Rightarrow> HTMLReportGenerator" where
  "build (AddScreenshot n url date) this = addScreenshot n url date this"
| "build (SetPerformanceData data) this = setPerformanceData data this"
| "build (SetValidationResults results) this = setValidationResults results this"

definition builder_run :: "builder_call list \<Rightarrow> HTMLReportGenerator \<Rightarrow> HTMLReportGenerator" where
  "builder_run calls this = fold build calls this"

section \<open>Auxiliary notions for the statements\<close>

text \<open>The samples stored under a name: the series, or nothing when there is none yet.\<close>

definition series_of :: "real list object \<Rightarrow> string \<Rightarrow> real list" where
  "series_of obj n = (case map_of obj n of None \<Rightarrow> [] | Some xs \<Rightarrow> xs)"

definition keys :: "'v object \<Rightarrow> string set" where
  "keys obj = fst ` set obj"

text \<open>An empty store and the first collector constructed in it, for the examples.\<close>

definition empty_store :: store where
  "empty_store = \<lparr>arrays = (\<lambda>r. []), next_ref = 0\<rparr>"

definition fresh_collector :: PerformanceMetrics where
  "fresh_collector = snd (PerformanceMetrics_constructor empty_store)"

text \<open>
  A finalized interaction has an end time not before its start time and the difference
  of the two as its duration.
\<close>

definition finalized :: "Interaction \<Rightarrow> bool" where
  "finalized i =
    (case endTime i of
       None \<Rightarrow> False
     | Some e \<Rightarrow> startTime i \<le> e \<and> duration i = Some (e - startTime i) \<and> 0 \<le> e - startTime i)"

text \<open>
  The invariant of a collector under a monotonic clock whose last reading is \<open>t\<close>: the
  history holds finalized interactions only, and the in-flight interaction, if any, was
  started at or before \<open>t\<close>.
\<close>

definition started_by :: "real \<Rightarrow> PerformanceMetrics \<Rightarrow> bool" where
  "started_by t this =
    (case currentInteraction this of None \<Rightarrow> True | Some i \<Rightarrow> startTime i \<le> t)"

definition timing_inv :: "real \<Rightarrow> store \<times> PerformanceMetrics \<Rightarrow> bool" where
  "timing_inv t w = (list_all finalized (history w) \<and> started_by t (snd w))"

text \<open>
  Every series holds a sample; every entry of a statistics table is a summary; no series
  is longer than the engine's bound on the arguments of a call.
\<close>

definition nonempty_series :: "real list object \<Rightarrow> bool" where
  "nonempty_series obj = list_all (\<lambda>e. snd e \<noteq> []) obj"

definition all_summaries :: "Stats option object \<Rightarrow> bool" where
  "all_summaries table = list_all (\<lambda>e. snd e \<noteq> None) table"

definition within_limit :: "nat \<Rightarrow> real list object \<Rightarrow> bool" where
  "within_limit limit obj = list_all (\<lambda>e. length (snd e) \<le> limit) obj"

definition series_inv :: "store \<times> PerformanceMetrics \<Rightarrow> bool" where
  "series_inv w = (nonempty_series (componentLoadTimes (metrics (snd w)))
                 \<and> nonempty_series (elementTimings (metrics (snd w))))"

text \<open>
  The names under which a sequence of calls records a sample: the name of every recording
  call that is not a name inherited from \<open>Object.prototype\<close>, in the order of the calls.
\<close>

fun component_names :: "(real \<times> call) list \<Rightarrow> string list" where
  "component_names [] = []"
| "component_names ((t, RecordComponentLoad n d) # cs) =
     (if n \<in> set Object_prototype_keys then component_names cs else n # component_names cs)"
| "component_names (c # cs) = component_names cs"

fun element_names :: "(real \<times> call) list \<Rightarrow> string list" where
  "element_names [] = []"
| "element_names ((t, RecordElementTiming n d) # cs) =
     (if n \<in> set Object_prototype_keys then element_names cs else n # element_names cs)"
| "element_names (c # cs) = element_names cs"

text \<open>
  The report that the fresh collector returns, and the collector after one interaction has
  been completed later on.
\<close>

definition sample_report :: Report where
  "sample_report =
     \<lparr>report_interactions = 0, componentStats = [], elementStats = [],
      report_timestamp = ''2024-01-01T00:00:00.000Z''\<rparr>"

definition later_world :: "store \<times> PerformanceMetrics" where
  "later_world =
     run [(0, StartInteraction ''x''), (1, EndInteraction)] (PerformanceMetrics_constructor empty_store)"

text \<open>
  The screenshots added and the validation results set by a sequence of calls to the
  builder, each in the order of the calls.
\<close>

fun added_screenshots :: "builder_call list \<Rightarrow> Screenshot list" where
  "added_screenshots [] = []"
| "added_screenshots (AddScreenshot n url date # cs) =
     \<lparr>shot_name = n, dataUrl = url, timestamp = date\<rparr> # added_screenshots cs"
| "added_screenshots (c # cs) = added_screenshots cs"

fun results_calls :: "builder_call list \<Rightarrow> ValidationResults list" where
  "results_calls [] = []"
| "results_calls (SetValidationResults r # cs) = r # results_calls cs"
| "results_calls (c # cs) = results_calls cs"

section \<open>The report method writes nothing\<close>

lemma generatePerformanceReport_state: "fst (generatePerformanceReport limit date this) = this"
  by (simp add: generatePerformanceReport_def)

section \<open>Statistics of a recorded series\<close>

lemma Math_min_Min: "Math_min x xs = Min (set (x # xs))"
  using Min.set_eq_fold [of x xs] by (simp add: Math_min_def)

lemma Math_max_Max: "Math_max x xs = Max (set (x # xs))"
  using Max.set_eq_fold [of x xs] by (simp add: Math_max_def)

lemma foldl_add_sum_list: "foldl (\<lambda>a b. a + b) (a::real) xs = a + sum_list xs"
  by (induction xs arbitrary: a) (simp_all add: add.assoc)

lemma reduce_add_sum_list: "reduce_add xs = sum_list xs"
  by (simp add: reduce_add_def foldl_add_sum_list)

lemma getStats_nonempty:
  "xs \<noteq> [] \<Longrightarrow> getStats limit (Some xs) =
     (if limit < length xs then Inl RangeError
      else Inr (Some \<lparr>min_stat = Min (set xs), max_stat = Max (set xs),
                      avg = sum_list xs / real (length xs), count = length xs\<rparr>))"
  by (cases xs) (simp_all add: Math_min_Min Math_max_Max reduce_add_sum_list del: Min_insert Max_insert)

lemma record_sample_Inr:
  assumes "record_sample obj n d = Inr obj'"
  shows "map_of obj' = (map_of obj)(n \<mapsto> series_of obj n @ [d])"
  using assms
  by (auto simp: record_sample_def get_property_def set_property_def series_of_def Let_def update_conv'
      split: option.splits if_splits property.splits)

lemma recordComponentLoad_Inr:
  assumes "recordComponentLoad n d this = Inr this'"
  shows "map_of (componentLoadTimes (metrics this'))
           = (map_of (componentLoadTimes (metrics this)))
               (n \<mapsto> series_of (componentLoadTimes (metrics this)) n @ [d])"
  using assms
  by (auto simp: recordComponentLoad_def split: sum.splits dest: record_sample_Inr)

lemma record_loads_series:
  "record_loads n ds this = Inr this' \<Longrightarrow> ds \<noteq> [] \<Longrightarrow>
     map_of (componentLoadTimes (metrics this')) n
       = Some (series_of (componentLoadTimes (metrics this)) n @ ds)"
proof (induction ds arbitrary: this)
  case Nil
  then show ?case by simp
next
  case (Cons d ds)
  from Cons.prems(1) obtain this1 where
    step: "recordComponentLoad n d this = Inr this1" and rest: "record_loads n ds this1 = Inr this'"
    by (auto split: sum.splits)
  have s1: "map_of (componentLoadTimes (metrics this1)) n
              = Some (series_of (componentLoadTimes (metrics this)) n @ [d])"
    using recordComponentLoad_Inr [OF step] by simp
  show ?case
  proof (cases ds)
    case Nil
    with rest s1 show ?thesis by simp
  next
    case (Cons e es)
    then have "ds \<noteq> []" by simp
    from Cons.IH [OF rest this] s1 show ?thesis
      by (simp add: series_of_def)
  qed
qed

lemma fresh_collector_eq:
  "fresh_collector =
     \<lparr>metrics = \<lparr>interactions = 0, componentLoadTimes = [], elementTimings = []\<rparr>,
      currentInteraction = None\<rparr>"
  by (simp add: fresh_collector_def PerformanceMetrics_constructor_def empty_store_def new_array_def)

lemma record_sample_raises:
  "record_sample obj n d = Inl e \<Longrightarrow> get_property obj n = Inherited"
  by (auto simp: record_sample_def Let_def get_property_def set_property_def update_conv'
      split: property.splits option.splits if_splits)

lemma get_property_Inherited:
  "get_property obj n = Inherited \<Longrightarrow> n \<in> set Object_prototype_keys"
  by (auto simp: get_property_def split: option.splits if_splits)

lemma record_loads_raises:
  "record_loads n ds this = Inl e \<Longrightarrow> n \<in> set Object_prototype_keys"
proof (induction ds arbitrary: this)
  case Nil
  then show ?case by simp
next
  case (Cons d ds)
  show ?case
  proof (cases "recordComponentLoad n d this")
    case (Inl e')
    then have "get_property (componentLoadTimes (metrics this)) n = Inherited"
      by (auto simp: recordComponentLoad_def split: sum.splits dest: record_sample_raises)
    then show ?thesis by (rule get_property_Inherited)
  next
    case (Inr this1)
    with Cons.prems have "record_loads n ds this1 = Inl e" by simp
    then show ?thesis by (rule Cons.IH)
  qed
qed

lemma record_loads_returns:
  "n \<notin> set Object_prototype_keys \<Longrightarrow> \<exists>this'. record_loads n ds this = Inr this'"
  by (cases "record_loads n ds this") (auto dest: record_loads_raises)

text \<open>
  C1. Let the non-empty samples \<open>s1..sn\<close> be recorded, in this order, by
  \<open>recordComponentLoad\<close> under a name that has no series yet. Unless the name is inherited
  from \<open>Object.prototype\<close> (then the first call raises and nothing is accumulated), all
  calls return and the series stored under the name is exactly \<open>[s1..sn]\<close>. As long as
  \<open>n\<close> does not exceed the engine's bound on the arguments of a call, \<open>getStats\<close> of the
  series is the summary with the least sample as \<open>min\<close>, the greatest as \<open>max\<close>, the sum
  of the samples divided by \<open>n\<close> as \<open>avg\<close> and \<open>n\<close> as \<open>count\<close>, a sample that occurs
  twice being counted twice. For a longer series \<open>getStats\<close> returns no summary: the spread
  in \<open>Math.min(...data)\<close> raises a \<open>RangeError\<close>.
\<close>

theorem getStats_recorded_series:
  assumes "samples \<noteq> []"
    and "map_of (componentLoadTimes (metrics this)) n = None"
  shows "case record_loads n samples this of
           Inl e \<Rightarrow> n \<in> set Object_prototype_keys
         | Inr this' \<Rightarrow>
             map_of (componentLoadTimes (metrics this')) n = Some samples
             \<and> getStats limit (map_of (componentLoadTimes (metrics this')) n)
                 = (if limit < length samples then Inl RangeError
                    else Inr (Some \<lparr>min_stat = Min (set samples), max_stat = Max (set samples),
                                    avg = sum_list samples / real (length samples),
                                    count = length samples\<rparr>))"
proof (cases "record_loads n samples this")
  case (Inl e)
  then show ?thesis by (simp add: record_loads_raises)
next
  case (Inr this')
  from record_loads_series [OF Inr assms(1)] assms show ?thesis
    by (simp add: Inr series_of_def getStats_nonempty)
qed

theorem getStats_recorded_series_witness:
  "record_loads ''header'' [3, 1, 2, 2] fresh_collector
     = Inr \<lparr>metrics = \<lparr>interactions = 0, componentLoadTimes = [(''header'', [3, 1, 2, 2])],
                       elementTimings = []\<rparr>, currentInteraction = None\<rparr>
   \<and> getStats 125000 (Some [3, 1, 2, 2])
       = Inr (Some \<lparr>min_stat = 1, max_stat = 3, avg = 2, count = 4\<rparr>)
   \<and> (\<exists>this'. record_loads ''header'' (replicate 130000 1) fresh_collector = Inr this'
         \<and> map_of (componentLoadTimes (metrics this')) ''header'' = Some (replicate 130000 1)
         \<and> getStats 125000 (map_of (componentLoadTimes (metrics this')) ''header'')
             = Inl RangeError)"
proof -
  let ?pm' = "\<lparr>metrics = \<lparr>interactions = 0, componentLoadTimes = [(''header'', [3, 1, 2, 2])],
                             elementTimings = []\<rparr>, currentInteraction = None\<rparr>"
  have run: "record_loads ''header'' [3, 1, 2, 2] fresh_collector = Inr ?pm'"
    by (simp add: fresh_collector_eq recordComponentLoad_def record_sample_def get_property_def
        set_property_def Object_prototype_keys_def)
  have none: "map_of (componentLoadTimes (metrics fresh_collector)) ''header'' = None"
    by (simp add: fresh_collector_eq)
  have short: "[3, 1, 2, 2] \<noteq> ([]::real list)" by simp
  have long: "replicate 130000 (1::real) \<noteq> []" by simp
  have "''header'' \<notin> set Object_prototype_keys"
    by (simp add: Object_prototype_keys_def)
  then obtain this' where
    run': "record_loads ''header'' (replicate 130000 1) fresh_collector = Inr this'"
    using record_loads_returns by blast
  from getStats_recorded_series [OF long none, of 125000] run'
  have "map_of (componentLoadTimes (metrics this')) ''header'' = Some (replicate 130000 1)
        \<and> getStats 125000 (map_of (componentLoadTimes (metrics this')) ''header'') = Inl RangeError"
    by auto
  with run' have third: "\<exists>this'. record_loads ''header'' (replicate 130000 1) fresh_collector = Inr this'
         \<and> map_of (componentLoadTimes (metrics this')) ''header'' = Some (replicate 130000 1)
         \<and> getStats 125000 (map_of (componentLoadTimes (metrics this')) ''header'')
             = Inl RangeError"
    by blast
  from getStats_recorded_series [OF short none, of 125000] run
  have "getStats 125000 (Some [3, 1, 2, 2])
       = Inr (Some \<lparr>min_stat = 1, max_stat = 3, avg = 2, count = 4\<rparr>)"
    by simp
  with run third show ?thesis by blast
qed

text \<open>
  C2. For a missing series (\<open>undefined\<close>) and for an empty one \<open>getStats\<close> returns \<open>null\<close>,
  whatever the engine's bound on arguments, and raises nothing; and whenever it does
  compute a summary the series it was given is present and non-empty, so the divisor
  \<open>data.length\<close> (the summary's \<open>count\<close>) is not zero.
\<close>

theorem getStats_empty_or_missing:
  "getStats limit None = Inr None \<and> getStats limit (Some []) = Inr None
   \<and> (\<forall>data s. getStats limit data = Inr (Some s) \<longrightarrow>
         data \<noteq> None \<and> data \<noteq> Some [] \<and> real (count s) \<noteq> 0)"
proof -
  have "data \<noteq> None \<and> data \<noteq> Some [] \<and> real (count s) \<noteq> 0"
    if "getStats limit data = Inr (Some s)" for data s
    using that by (cases "(limit, data)" rule: getStats.cases) (auto split: if_splits)
  then show ?thesis by simp
qed

theorem getStats_empty_or_missing_witness:
  "getStats 0 None = Inr None \<and> getStats 0 (Some []) = Inr None
   \<and> getStats 125000 (Some [4, 6]) = Inr (Some \<lparr>min_stat = 4, max_stat = 6, avg = 5, count = 2\<rparr>)
   \<and> real (count \<lparr>min_stat = 4, max_stat = 6, avg = 5, count = 2\<rparr>) \<noteq> 0"
proof -
  have ex: "getStats 125000 (Some [4, 6])
      = Inr (Some \<lparr>min_stat = 4, max_stat = 6, avg = 5, count = 2\<rparr>)"
    by (simp add: Math_min_def Math_max_def reduce_add_def)
  from getStats_empty_or_missing [of 0] getStats_empty_or_missing [of 125000] ex show ?thesis
    by blast
qed

section \<open>Interactions\<close>

lemma history_push:
  "history (push (interactions (metrics this)) x h, this\<lparr>currentInteraction := c\<rparr>)
     = history (h, this) @ [x]"
  by (simp add: history_def push_def)

lemma endInteraction_in_flight:
  "currentInteraction this = Some i \<Longrightarrow>
   endInteraction now (h, this)
     = (push (interactions (metrics this))
          (i\<lparr>endTime := Some now, duration := Some (now - startTime i)\<rparr>) h,
        this\<lparr>currentInteraction := None\<rparr>)"
  by (simp add: endInteraction_def Let_def)

lemma endInteraction_idle:
  "currentInteraction this = None \<Longrightarrow> endInteraction now (h, this) = (h, this)"
  by (simp add: endInteraction_def)

text \<open>
  C5. From any collector state: after \<open>startInteraction(n1)\<close>, \<open>startInteraction(n2)\<close> and
  one \<open>endInteraction()\<close>, the second call has returned its in-flight record (no error),
  the history has grown by exactly one entry, the finalized second interaction, and the
  in-flight slot is empty. The first interaction is lost: the resulting state is the one
  reached without the first call, and a further \<open>endInteraction()\<close> changes nothing.
\<close>

theorem restart_loses_first_interaction:
  "snd (startInteraction n2 t2 (fst (startInteraction n1 t1 this)))
     = \<lparr>name = n2, startTime = t2, endTime = None, duration = None\<rparr>
   \<and> history (h, fst (startInteraction n2 t2 (fst (startInteraction n1 t1 this)))) = history (h, this)
   \<and> history (endInteraction t3 (h, fst (startInteraction n2 t2 (fst (startInteraction n1 t1 this)))))
       = history (h, this)
         @ [\<lparr>name = n2, startTime = t2, endTime = Some t3, duration = Some (t3 - t2)\<rparr>]
   \<and> currentInteraction
         (snd (endInteraction t3 (h, fst (startInteraction n2 t2 (fst (startInteraction n1 t1 this))))))
       = None
   \<and> endInteraction t3 (h, fst (startInteraction n2 t2 (fst (startInteraction n1 t1 this))))
       = endInteraction t3 (h, fst (startInteraction n2 t2 this))
   \<and> endInteraction t4
         (endInteraction t3 (h, fst (startInteraction n2 t2 (fst (startInteraction n1 t1 this)))))
       = endInteraction t3 (h, fst (startInteraction n2 t2 (fst (startInteraction n1 t1 this))))"
  by (simp add: startInteraction_def endInteraction_def Let_def history_def push_def)

theorem restart_loses_first_interaction_witness:
  "history (endInteraction 9 (fst (PerformanceMetrics_constructor empty_store),
       fst (startInteraction ''save'' 5 (fst (startInteraction ''load'' 2 fresh_collector)))))
     = [\<lparr>name = ''save'', startTime = 5, endTime = Some 9, duration = Some 4\<rparr>]"
  using restart_loses_first_interaction
    [of "''save''" 5 "''load''" 2 fresh_collector "fst (PerformanceMetrics_constructor empty_store)" 9 0]
  by (simp add: history_def fresh_collector_def PerformanceMetrics_constructor_def empty_store_def
      new_array_def startInteraction_def endInteraction_def push_def Let_def)

subsection \<open>Finalized interactions under a monotonic clock\<close>

lemma exec_timing_inv:
  assumes "timing_inv t w" and "t \<le> now"
  shows "timing_inv now (exec (now, c) w)"
proof (cases w)
  case (Pair h this)
  show ?thesis
  proof (cases c)
    case (StartInteraction n)
    with assms Pair show ?thesis
      by (simp add: timing_inv_def started_by_def startInteraction_def history_def Let_def)
  next
    case EndInteraction
    with assms Pair show ?thesis
      by (auto simp: timing_inv_def started_by_def endInteraction_def history_def push_def
          finalized_def Let_def split: option.splits)
  next
    case (RecordComponentLoad n d)
    with assms Pair show ?thesis
      by (auto simp: timing_inv_def started_by_def recordComponentLoad_def history_def
          split: option.splits sum.splits)
  next
    case (RecordElementTiming n d)
    with assms Pair show ?thesis
      by (auto simp: timing_inv_def started_by_def recordElementTiming_def history_def
          split: option.splits sum.splits)
  next
    case (GeneratePerformanceReport d)
    with assms Pair show ?thesis
      by (auto simp: timing_inv_def started_by_def generatePerformanceReport_state history_def Let_def
          split: option.splits)
  qed
qed

lemma run_timing_inv:
  "timing_inv t w \<Longrightarrow> sorted (t # map fst calls) \<Longrightarrow>
   timing_inv (last (t # map fst calls)) (run calls w)"
proof (induction calls arbitrary: t w)
  case Nil
  then show ?case by (simp add: run_def)
next
  case (Cons c calls)
  obtain now k where c: "c = (now, k)" by (cases c)
  from Cons.prems c have le: "t \<le> now" and srt: "sorted (now # map fst calls)" by auto
  from exec_timing_inv [OF Cons.prems(1) le] have "timing_inv now (exec (now, k) w)" .
  from Cons.IH [OF this srt] c show ?case by (simp add: run_def)
qed

lemma constructor_timing_inv: "timing_inv t (PerformanceMetrics_constructor h)"
  by (simp add: timing_inv_def PerformanceMetrics_constructor_def new_array_def history_def
      started_by_def)

lemma run_finalized:
  assumes "sorted (map fst calls)"
  shows "list_all finalized (history (run calls (PerformanceMetrics_constructor h)))"
proof (cases calls)
  case Nil
  then show ?thesis
    using constructor_timing_inv [of 0 h] by (simp add: run_def timing_inv_def)
next
  case (Cons c cs)
  have "sorted (fst c # map fst calls)" using assms Cons by auto
  from run_timing_inv [OF constructor_timing_inv this] show ?thesis
    by (simp add: timing_inv_def)
qed

lemma start_end_fresh:
  "run [(t0, StartInteraction n), (t1, EndInteraction)] (PerformanceMetrics_constructor h)
     = (push (next_ref h) \<lparr>name = n, startTime = t0, endTime = Some t1, duration = Some (t1 - t0)\<rparr>
          (fst (PerformanceMetrics_constructor h)),
        snd (PerformanceMetrics_constructor h))"
  by (simp add: run_def PerformanceMetrics_constructor_def new_array_def startInteraction_def
      endInteraction_def Let_def)

text \<open>
  C6. The clock is monotonic: the readings that come with the calls never decrease. Then,
  after any sequence of calls on a new collector, every interaction in the history is
  finalized: its \<open>endTime\<close> is not before its \<open>startTime\<close> and its \<open>duration\<close> is their
  difference, which is not negative. In particular \<open>startInteraction("x")\<close> at time \<open>t0\<close>
  followed by \<open>endInteraction()\<close> at time \<open>t1\<close> leaves exactly one interaction in the
  history, with these properties, and an empty in-flight slot.
\<close>

theorem finalized_interactions:
  assumes "sorted (map fst calls)" and "t0 \<le> t1"
  shows "list_all finalized (history (run calls (PerformanceMetrics_constructor h)))
       \<and> history (run [(t0, StartInteraction ''x''), (t1, EndInteraction)]
                    (PerformanceMetrics_constructor h))
           = [\<lparr>name = ''x'', startTime = t0, endTime = Some t1, duration = Some (t1 - t0)\<rparr>]
       \<and> 0 \<le> t1 - t0
       \<and> currentInteraction (snd (run [(t0, StartInteraction ''x''), (t1, EndInteraction)]
                                   (PerformanceMetrics_constructor h))) = None"
  using run_finalized [OF assms(1), of h] assms(2)
  by (simp add: start_end_fresh)
    (simp add: history_def push_def PerformanceMetrics_constructor_def new_array_def)

theorem finalized_interactions_witness:
  "history (run [(1, StartInteraction ''a''), (2, StartInteraction ''b''), (4, EndInteraction),
                 (4, EndInteraction), (5, StartInteraction ''c''), (5, EndInteraction)]
              (PerformanceMetrics_constructor empty_store))
     = [\<lparr>name = ''b'', startTime = 2, endTime = Some 4, duration = Some 2\<rparr>,
        \<lparr>name = ''c'', startTime = 5, endTime = Some 5, duration = Some 0\<rparr>]
   \<and> list_all finalized
       (history (run [(1, StartInteraction ''a''), (2, StartInteraction ''b''), (4, EndInteraction),
                      (4, EndInteraction), (5, StartInteraction ''c''), (5, EndInteraction)]
                   (PerformanceMetrics_constructor empty_store)))
   \<and> history (run [(3, StartInteraction ''x''), (7, EndInteraction)]
                (PerformanceMetrics_constructor empty_store))
       = [\<lparr>name = ''x'', startTime = 3, endTime = Some 7, duration = Some 4\<rparr>]"
proof -
  let ?calls = "[(1::real, StartInteraction ''a''), (2, StartInteraction ''b''), (4, EndInteraction),
                 (4, EndInteraction), (5, StartInteraction ''c''), (5, EndInteraction)]"
  have s: "sorted (map fst ?calls)" by simp
  have le: "(3::real) \<le> 7" by simp
  have h: "history (run ?calls (PerformanceMetrics_constructor empty_store))
     = [\<lparr>name = ''b'', startTime = 2, endTime = Some 4, duration = Some 2\<rparr>,
        \<lparr>name = ''c'', startTime = 5, endTime = Some 5, duration = Some 0\<rparr>]"
    by (simp add: run_def history_def PerformanceMetrics_constructor_def empty_store_def new_array_def
        startInteraction_def endInteraction_def push_def Let_def)
  from finalized_interactions [OF s le, of empty_store] h show ?thesis
    by simp
qed

section \<open>The report and the collector's state\<close>

lemma exec_interactions: "interactions (metrics (snd (exec c w))) = interactions (metrics (snd w))"
proof -
  obtain now k h this where "c = (now, k)" "w = (h, this)" by (cases c, cases w) auto
  then show ?thesis
    by (cases k)
      (auto simp: startInteraction_def endInteraction_def recordComponentLoad_def
        recordElementTiming_def generatePerformanceReport_state Let_def
        split: option.splits sum.splits)
qed

lemma run_interactions: "interactions (metrics (snd (run calls w))) = interactions (metrics (snd w))"
  unfolding run_def by (induction calls arbitrary: w) (simp_all add: exec_interactions)

lemma exec_history_grows: "\<exists>added. history (exec c w) = history w @ added"
proof -
  obtain now k h this where ck: "c = (now, k)" "w = (h, this)" by (cases c, cases w) auto
  show ?thesis
  proof (cases k)
    case EndInteraction
    with ck show ?thesis
      by (cases "currentInteraction this")
        (simp_all add: endInteraction_def Let_def history_def push_def)
  qed (use ck in \<open>auto simp: history_def startInteraction_def recordComponentLoad_def
        recordElementTiming_def generatePerformanceReport_state Let_def split: sum.splits\<close>)
qed

lemma run_history_grows: "\<exists>added. history (run calls w) = history w @ added"
proof (induction calls arbitrary: w)
  case Nil
  then show ?case by (simp add: run_def)
next
  case (Cons c calls)
  obtain a where a: "history (exec c w) = history w @ a"
    using exec_history_grows by blast
  obtain b where "history (run calls (exec c w)) = history (exec c w) @ b"
    using Cons.IH by blast
  with a have "history (run (c # calls) w) = history w @ (a @ b)"
    by (simp add: run_def)
  then show ?case by blast
qed

lemma generatePerformanceReport_interactions:
  "snd (generatePerformanceReport limit date this) = Inr r \<Longrightarrow>
   report_interactions r = interactions (metrics this)"
  by (auto simp: generatePerformanceReport_def split: sum.splits)

text \<open>
  C4, amended. The field \<open>interactions\<close> of a report is the collector's own history
  array, not a copy: whatever calls follow \<open>generatePerformanceReport()\<close>, reading the
  \<open>interactions\<close> of the report returned earlier yields the collector's history of that
  later moment, which is the history at the time of the report followed by the
  interactions completed since.
\<close>

theorem report_interactions_alias_history:
  assumes "snd (generatePerformanceReport limit date this) = Inr r"
  shows "read_interactions (fst (run calls (h, this))) r = history (run calls (h, this))
       \<and> (\<exists>added. read_interactions (fst (run calls (h, this))) r
                      = read_interactions h r @ added)"
proof -
  have shared: "read_interactions (fst (run calls (h, this))) r = history (run calls (h, this))"
    using run_interactions [of calls "(h, this)"] generatePerformanceReport_interactions [OF assms]
    by (simp add: read_interactions_def history_def)
  have "read_interactions h r = history (h, this)"
    using generatePerformanceReport_interactions [OF assms]
    by (simp add: read_interactions_def history_def)
  with shared run_history_grows [of calls "(h, this)"] show ?thesis
    by simp
qed

lemma sample_report_returned:
  "snd (generatePerformanceReport 125000 ''2024-01-01T00:00:00.000Z'' fresh_collector)
     = Inr sample_report"
  by (simp add: generatePerformanceReport_def fresh_collector_def PerformanceMetrics_constructor_def
      empty_store_def new_array_def Object_entries_def sample_report_def)

theorem report_interactions_alias_history_witness:
  "snd (generatePerformanceReport 125000 ''2024-01-01T00:00:00.000Z'' fresh_collector)
     = Inr sample_report
   \<and> read_interactions (fst later_world) sample_report = history later_world
   \<and> history later_world = [\<lparr>name = ''x'', startTime = 0, endTime = Some 1, duration = Some 1\<rparr>]"
proof -
  have "history later_world = [\<lparr>name = ''x'', startTime = 0, endTime = Some 1, duration = Some 1\<rparr>]"
    by (simp add: later_world_def run_def history_def PerformanceMetrics_constructor_def
        empty_store_def new_array_def startInteraction_def endInteraction_def push_def Let_def)
  moreover have "PerformanceMetrics_constructor empty_store
      = (fst (PerformanceMetrics_constructor empty_store), fresh_collector)"
    by (simp add: fresh_collector_def)
  ultimately show ?thesis
    using report_interactions_alias_history
      [OF sample_report_returned, of "[(0, StartInteraction ''x''), (1, EndInteraction)]"
          "fst (PerformanceMetrics_constructor empty_store)"]
      sample_report_returned
    by (simp add: later_world_def)
qed

text \<open>
  C4, counterexample. A report is taken from a new collector, and its \<open>interactions\<close>
  read as the empty sequence; after one interaction has then been started and ended, the
  \<open>interactions\<close> of the same report hold that interaction: the later call has changed
  the sequence in the report returned before.
\<close>

theorem report_interactions_not_a_copy:
  "snd (generatePerformanceReport 125000 ''2024-01-01T00:00:00.000Z''
          (snd (PerformanceMetrics_constructor empty_store))) = Inr sample_report
   \<and> read_interactions (fst (PerformanceMetrics_constructor empty_store)) sample_report = []
   \<and> read_interactions (fst later_world) sample_report
       = [\<lparr>name = ''x'', startTime = 0, endTime = Some 1, duration = Some 1\<rparr>]"
  by (simp add: read_interactions_def sample_report_def later_world_def run_def
      PerformanceMetrics_constructor_def empty_store_def new_array_def generatePerformanceReport_def
      startInteraction_def endInteraction_def push_def Let_def Object_entries_def)

lemma getStats_limit_free:
  "getStats limit1 data = Inr s1 \<Longrightarrow> getStats limit2 data = Inr s2 \<Longrightarrow> s1 = s2"
  by (cases "(limit1, data)" rule: getStats.cases) (auto split: if_splits)

lemma stats_loop_limit_free:
  "stats_loop limit1 es table = Inr t1 \<Longrightarrow> stats_loop limit2 es table = Inr t2 \<Longrightarrow> t1 = t2"
proof (induction es arbitrary: table)
  case Nil
  then show ?case by simp
next
  case (Cons e es)
  from Cons.prems obtain s1 s2 where
    s1: "getStats limit1 (Some (snd e)) = Inr s1"
    and r1: "stats_loop limit1 es (set_property table (fst e) s1) = Inr t1"
    and s2: "getStats limit2 (Some (snd e)) = Inr s2"
    and r2: "stats_loop limit2 es (set_property table (fst e) s2) = Inr t2"
    by (auto split: sum.splits)
  from getStats_limit_free [OF s1 s2] r1 r2 Cons.IH show ?case by simp
qed

lemma generatePerformanceReport_limit_free:
  assumes "snd (generatePerformanceReport limit1 d1 this) = Inr r1"
    and "snd (generatePerformanceReport limit2 d2 this) = Inr r2"
  shows "r2 = r1\<lparr>report_timestamp := d2\<rparr>"
proof -
  from assms(1) obtain c1 e1 where
    c1: "stats_loop limit1 (Object_entries (componentLoadTimes (metrics this))) [] = Inr c1"
    and e1: "stats_loop limit1 (Object_entries (elementTimings (metrics this))) [] = Inr e1"
    and r1: "r1 = \<lparr>report_interactions = interactions (metrics this), componentStats = c1,
                    elementStats = e1, report_timestamp = d1\<rparr>"
    by (auto simp: generatePerformanceReport_def split: sum.splits)
  from assms(2) obtain c2 e2 where
    c2: "stats_loop limit2 (Object_entries (componentLoadTimes (metrics this))) [] = Inr c2"
    and e2: "stats_loop limit2 (Object_entries (elementTimings (metrics this))) [] = Inr e2"
    and r2: "r2 = \<lparr>report_interactions = interactions (metrics this), componentStats = c2,
                    elementStats = e2, report_timestamp = d2\<rparr>"
    by (auto simp: generatePerformanceReport_def split: sum.splits)
  from stats_loop_limit_free [OF c1 c2] stats_loop_limit_free [OF e1 e2] r1 r2
  show ?thesis by simp
qed

text \<open>
  C7. \<open>generatePerformanceReport()\<close> leaves the collector and the store as they were,
  whether it returns or raises, and a second call right after the first has the outcome
  of the first: the same fault, or the first report again up to the field \<open>timestamp\<close>.
  Two calls that both return, also under different bounds of the engine, return reports
  that are equal up to \<open>timestamp\<close> and read the same \<open>interactions\<close>.
\<close>

theorem generatePerformanceReport_repeatable:
  "fst (generatePerformanceReport limit d1 this) = this
   \<and> exec (now, GeneratePerformanceReport limit d1) (h, this) = (h, this)
   \<and> snd (generatePerformanceReport limit d2 (fst (generatePerformanceReport limit d1 this)))
       = (case snd (generatePerformanceReport limit d1 this) of
            Inl e \<Rightarrow> Inl e
          | Inr r \<Rightarrow> Inr (r\<lparr>report_timestamp := d2\<rparr>))
   \<and> (\<forall>r1 r2. snd (generatePerformanceReport limit d1 this) = Inr r1
         \<and> snd (generatePerformanceReport limit' d2 (fst (generatePerformanceReport limit d1 this)))
             = Inr r2
         \<longrightarrow> r2 = r1\<lparr>report_timestamp := d2\<rparr>
             \<and> read_interactions h r2 = read_interactions h r1)"
proof -
  have same: "snd (generatePerformanceReport limit d2 this)
       = (case snd (generatePerformanceReport limit d1 this) of
            Inl e \<Rightarrow> Inl e
          | Inr r \<Rightarrow> Inr (r\<lparr>report_timestamp := d2\<rparr>))"
  proof (cases "stats_loop limit (Object_entries (componentLoadTimes (metrics this))) []")
    case (Inl err)
    then show ?thesis by (simp add: generatePerformanceReport_def)
  next
    case c: (Inr ctable)
    show ?thesis
      by (cases "stats_loop limit (Object_entries (elementTimings (metrics this))) []")
        (simp_all add: generatePerformanceReport_def c)
  qed
  have both: "r2 = r1\<lparr>report_timestamp := d2\<rparr> \<and> read_interactions h r2 = read_interactions h r1"
    if "snd (generatePerformanceReport limit d1 this) = Inr r1"
      and "snd (generatePerformanceReport limit' d2 this) = Inr r2" for r1 r2
    using generatePerformanceReport_limit_free [OF that] by (simp add: read_interactions_def)
  from same both show ?thesis
    by (simp add: generatePerformanceReport_state)
qed

theorem generatePerformanceReport_repeatable_witness:
  "fst (generatePerformanceReport 125000 ''d1''
          \<lparr>metrics = \<lparr>interactions = 0, componentLoadTimes = [(''header'', [12, 8])],
                      elementTimings = []\<rparr>,
           currentInteraction = Some \<lparr>name = ''load'', startTime = 1, endTime = None,
                                      duration = None\<rparr>\<rparr>)
     = \<lparr>metrics = \<lparr>interactions = 0, componentLoadTimes = [(''header'', [12, 8])],
                    elementTimings = []\<rparr>,
         currentInteraction = Some \<lparr>name = ''load'', startTime = 1, endTime = None,
                                    duration = None\<rparr>\<rparr>
   \<and> snd (generatePerformanceReport 125000 ''d2''
          \<lparr>metrics = \<lparr>interactions = 0, componentLoadTimes = [(''header'', [12, 8])],
                      elementTimings = []\<rparr>,
           currentInteraction = Some \<lparr>name = ''load'', startTime = 1, endTime = None,
                                      duration = None\<rparr>\<rparr>)
       = Inr \<lparr>report_interactions = 0,
              componentStats = [(''header'', Some \<lparr>min_stat = 8, max_stat = 12, avg = 10, count = 2\<rparr>)],
              elementStats = [], report_timestamp = ''d2''\<rparr>
   \<and> snd (generatePerformanceReport 1 ''d2''
          \<lparr>metrics = \<lparr>interactions = 0, componentLoadTimes = [(''header'', [12, 8])],
                      elementTimings = []\<rparr>,
           currentInteraction = Some \<lparr>name = ''load'', startTime = 1, endTime = None,
                                      duration = None\<rparr>\<rparr>)
       = Inl RangeError"
proof -
  let ?pm = "\<lparr>metrics = \<lparr>interactions = 0, componentLoadTimes = [(''header'', [12, 8])],
                            elementTimings = []\<rparr>,
                 currentInteraction = Some \<lparr>name = ''load'', startTime = 1, endTime = None,
                                            duration = None\<rparr>\<rparr>"
  have header: "array_index ''header'' = None"
    by (simp add: array_index_def is_digit_def)
  have second: "snd (generatePerformanceReport 125000 ''d2'' ?pm)
       = Inr \<lparr>report_interactions = 0,
              componentStats = [(''header'', Some \<lparr>min_stat = 8, max_stat = 12, avg = 10, count = 2\<rparr>)],
              elementStats = [], report_timestamp = ''d2''\<rparr>"
    by (simp add: generatePerformanceReport_def Object_entries_def header set_property_def
        Math_min_def Math_max_def reduce_add_def)
  have raised: "snd (generatePerformanceReport 1 ''d2'' ?pm) = Inl RangeError"
    by (simp add: generatePerformanceReport_def Object_entries_def header)
  have unchanged: "fst (generatePerformanceReport 125000 ''d1'' ?pm) = ?pm"
    using generatePerformanceReport_repeatable
         [where limit = 125000 and ?d1.0 = "''d1''" and ?d2.0 = "''d2''" and this = ?pm
            and h = empty_store and now = 0 and limit' = 125000]
    by (rule conjunct1)
  from unchanged second raised show ?thesis
    by (intro conjI)
qed

section \<open>The sample series\<close>

lemma record_sample_cases:
  "(case record_sample obj n d of
      Inl e \<Rightarrow> get_property obj n = Inherited
    | Inr obj' \<Rightarrow> map_of obj' = (map_of obj)(n \<mapsto> series_of obj n @ [d]))"
  by (auto split: sum.splits dest: record_sample_raises record_sample_Inr)

text \<open>
  C10. \<open>recordComponentLoad(n, d)\<close> either returns, and then the series under \<open>n\<close> in
  \<open>componentLoadTimes\<close> is the former one with \<open>d\<close> appended, every other series of
  \<open>componentLoadTimes\<close> is as before and \<open>elementTimings\<close>, the interaction history and the
  in-flight interaction are unchanged; or it raises, which happens only for a name
  inherited from \<open>Object.prototype\<close> and before anything is written. The same holds for
  \<open>recordElementTiming\<close> with the two tables exchanged.
\<close>

theorem record_frame:
  "(case recordComponentLoad n d this of
      Inl e \<Rightarrow> get_property (componentLoadTimes (metrics this)) n = Inherited
    | Inr this' \<Rightarrow>
        map_of (componentLoadTimes (metrics this')) n
          = Some (series_of (componentLoadTimes (metrics this)) n @ [d])
        \<and> (\<forall>m. m \<noteq> n \<longrightarrow> map_of (componentLoadTimes (metrics this')) m
                               = map_of (componentLoadTimes (metrics this)) m)
        \<and> elementTimings (metrics this') = elementTimings (metrics this)
        \<and> history (h, this') = history (h, this)
        \<and> currentInteraction this' = currentInteraction this)
   \<and> (case recordElementTiming n d this of
      Inl e \<Rightarrow> get_property (elementTimings (metrics this)) n = Inherited
    | Inr this' \<Rightarrow>
        map_of (elementTimings (metrics this')) n
          = Some (series_of (elementTimings (metrics this)) n @ [d])
        \<and> (\<forall>m. m \<noteq> n \<longrightarrow> map_of (elementTimings (metrics this')) m
                               = map_of (elementTimings (metrics this)) m)
        \<and> componentLoadTimes (metrics this') = componentLoadTimes (metrics this)
        \<and> history (h, this') = history (h, this)
        \<and> currentInteraction this' = currentInteraction this)"
proof
  show "case recordComponentLoad n d this of
      Inl e \<Rightarrow> get_property (componentLoadTimes (metrics this)) n = Inherited
    | Inr this' \<Rightarrow>
        map_of (componentLoadTimes (metrics this')) n
          = Some (series_of (componentLoadTimes (metrics this)) n @ [d])
        \<and> (\<forall>m. m \<noteq> n \<longrightarrow> map_of (componentLoadTimes (metrics this')) m
                               = map_of (componentLoadTimes (metrics this)) m)
        \<and> elementTimings (metrics this') = elementTimings (metrics this)
        \<and> history (h, this') = history (h, this)
        \<and> currentInteraction this' = currentInteraction this"
    using record_sample_cases [of "componentLoadTimes (metrics this)" n d]
    by (auto simp: recordComponentLoad_def history_def split: sum.splits)
  show "case recordElementTiming n d this of
      Inl e \<Rightarrow> get_property (elementTimings (metrics this)) n = Inherited
    | Inr this' \<Rightarrow>
        map_of (elementTimings (metrics this')) n
          = Some (series_of (elementTimings (metrics this)) n @ [d])
        \<and> (\<forall>m. m \<noteq> n \<longrightarrow> map_of (elementTimings (metrics this')) m
                               = map_of (elementTimings (metrics this)) m)
        \<and> componentLoadTimes (metrics this') = componentLoadTimes (metrics this)
        \<and> history (h, this') = history (h, this)
        \<and> currentInteraction this' = currentInteraction this"
    using record_sample_cases [of "elementTimings (metrics this)" n d]
    by (auto simp: recordElementTiming_def history_def split: sum.splits)
qed

theorem record_frame_witness:
  "recordComponentLoad ''header'' 12 (fst (startInteraction ''load'' 1 fresh_collector))
     = Inr \<lparr>metrics = \<lparr>interactions = 0, componentLoadTimes = [(''header'', [12])],
                       elementTimings = []\<rparr>,
            currentInteraction = Some \<lparr>name = ''load'', startTime = 1, endTime = None,
                                       duration = None\<rparr>\<rparr>
   \<and> recordElementTiming ''header'' 12 (fst (startInteraction ''load'' 1 fresh_collector))
     = Inr \<lparr>metrics = \<lparr>interactions = 0, componentLoadTimes = [],
                       elementTimings = [(''header'', [12])]\<rparr>,
            currentInteraction = Some \<lparr>name = ''load'', startTime = 1, endTime = None,
                                       duration = None\<rparr>\<rparr>
   \<and> recordComponentLoad ''toString'' 12 fresh_collector = Inl TypeError"
  using record_frame [where n = "''header''" and d = 12 and h = empty_store
      and this = "fst (startInteraction ''load'' 1 fresh_collector)"]
  by (simp add: recordComponentLoad_def recordElementTiming_def record_sample_def get_property_def
      set_property_def Object_prototype_keys_def startInteraction_def Let_def fresh_collector_def
      PerformanceMetrics_constructor_def empty_store_def new_array_def)

subsection \<open>Every stored series is non-empty\<close>

lemma set_update_cases:
  "e \<in> set (AList.update k v al) \<Longrightarrow> e = (k, v) \<or> e \<in> set al"
  by (induction al) (auto split: if_splits)

lemma keys_Nil: "keys [] = {}"
  by (simp add: keys_def)

lemma keys_Cons: "keys (e # es) = insert (fst e) (keys es)"
  by (simp add: keys_def)

lemma keys_set_property: "keys (set_property obj k v) = insert k (keys obj)"
  by (simp add: keys_def set_property_def dom_update)

lemma all_summaries_set_property:
  "all_summaries t \<Longrightarrow> v \<noteq> None \<Longrightarrow> all_summaries (set_property t k v)"
  by (auto simp: all_summaries_def set_property_def list_all_iff dest!: set_update_cases)

lemma record_sample_nonempty:
  assumes "nonempty_series obj" and "record_sample obj n d = Inr obj'"
  shows "nonempty_series obj'"
proof -
  let ?obj1 = "if get_property obj n = Undefined then set_property obj n [] else obj"
  from assms(2) obtain series where
    own: "get_property ?obj1 n = Own series" and obj': "obj' = set_property ?obj1 n (series @ [d])"
    by (auto simp: record_sample_def Let_def split: property.splits)
  have "e \<in> set obj' \<Longrightarrow> snd e \<noteq> []" for e
    using assms(1) unfolding obj'
    by (auto simp: nonempty_series_def set_property_def list_all_iff
        dest!: set_update_cases split: if_splits)
  then show ?thesis by (simp add: nonempty_series_def list_all_iff)
qed

lemma getStats_summary:
  "xs \<noteq> [] \<Longrightarrow> getStats limit (Some xs) = Inr s \<Longrightarrow> s \<noteq> None"
  by (cases xs) (auto split: if_splits)

lemma stats_loop_summaries:
  "all_summaries acc \<Longrightarrow> nonempty_series es \<Longrightarrow> stats_loop limit es acc = Inr table \<Longrightarrow>
   all_summaries table"
proof (induction es arbitrary: acc)
  case Nil
  then show ?case by simp
next
  case (Cons e es)
  from Cons.prems(2) have ne: "snd e \<noteq> []" and rest: "nonempty_series es"
    by (simp_all add: nonempty_series_def)
  from Cons.prems(3) obtain s where
    s: "getStats limit (Some (snd e)) = Inr s"
    and loop: "stats_loop limit es (set_property acc (fst e) s) = Inr table"
    by (auto split: sum.splits)
  from getStats_summary [OF ne s] Cons.prems(1)
  have "all_summaries (set_property acc (fst e) s)"
    by (simp add: all_summaries_set_property)
  from Cons.IH [OF this rest loop] show ?case .
qed

lemma stats_loop_keys:
  "stats_loop limit es acc = Inr table \<Longrightarrow> keys table = keys es \<union> keys acc"
proof (induction es arbitrary: acc)
  case Nil
  then show ?case by (simp add: keys_Nil)
next
  case (Cons e es)
  from Cons.prems obtain s where
    loop: "stats_loop limit es (set_property acc (fst e) s) = Inr table"
    by (auto split: sum.splits)
  from Cons.IH [OF loop] show ?case by (simp add: keys_set_property keys_Cons)
qed

lemma stats_loop_returns:
  "within_limit limit es \<Longrightarrow> \<exists>table. stats_loop limit es acc = Inr table"
proof (induction es arbitrary: acc)
  case Nil
  then show ?case by simp
next
  case (Cons e es)
  from Cons.prems have le: "length (snd e) \<le> limit" and rest: "within_limit limit es"
    by (simp_all add: within_limit_def)
  from le obtain s where "getStats limit (Some (snd e)) = Inr s"
    by (cases "snd e") auto
  with Cons.IH [OF rest] show ?case by simp
qed

lemma stats_loop_raises:
  "stats_loop limit es acc = Inl err \<Longrightarrow> err = RangeError \<and> \<not> within_limit limit es"
proof (induction es arbitrary: acc)
  case Nil
  then show ?case by simp
next
  case (Cons e es)
  show ?case
  proof (cases "getStats limit (Some (snd e))")
    case (Inl err')
    with Cons.prems have "err' = err" by simp
    with Inl show ?thesis
      by (cases "snd e") (auto simp: within_limit_def split: if_splits)
  next
    case (Inr s)
    with Cons.prems have "stats_loop limit es (set_property acc (fst e) s) = Inl err" by simp
    from Cons.IH [OF this] show ?thesis by (simp add: within_limit_def)
  qed
qed

lemma stats_loop_within:
  "stats_loop limit es acc = Inr table \<Longrightarrow> within_limit limit es"
proof (induction es arbitrary: acc)
  case Nil
  then show ?case by (simp add: within_limit_def)
next
  case (Cons e es)
  from Cons.prems obtain s where
    s: "getStats limit (Some (snd e)) = Inr s"
    and loop: "stats_loop limit es (set_property acc (fst e) s) = Inr table"
    by (auto split: sum.splits)
  from s have "length (snd e) \<le> limit"
    by (cases "snd e") (auto split: if_splits)
  with Cons.IH [OF loop] show ?case by (simp add: within_limit_def)
qed

lemma set_Object_entries: "set (Object_entries obj) = set obj"
  by (auto simp: Object_entries_def)

lemma nonempty_series_entries: "nonempty_series obj \<Longrightarrow> nonempty_series (Object_entries obj)"
  by (simp add: nonempty_series_def list_all_iff set_Object_entries)

lemma keys_entries: "keys (Object_entries obj) = keys obj"
  by (simp add: keys_def set_Object_entries)

lemma within_limit_entries: "within_limit limit (Object_entries obj) = within_limit limit obj"
  by (simp add: within_limit_def list_all_iff set_Object_entries)

lemma exec_series_inv: "series_inv w \<Longrightarrow> series_inv (exec c w)"
proof -
  assume a: "series_inv w"
  obtain now k h this where ck: "c = (now, k)" "w = (h, this)" by (cases c, cases w) auto
  show ?thesis
  proof (cases k)
    case (RecordComponentLoad n d)
    with a ck show ?thesis
      by (auto simp: series_inv_def recordComponentLoad_def split: sum.splits
          dest: record_sample_nonempty)
  next
    case (RecordElementTiming n d)
    with a ck show ?thesis
      by (auto simp: series_inv_def recordElementTiming_def split: sum.splits
          dest: record_sample_nonempty)
  qed (use a ck in \<open>auto simp: series_inv_def startInteraction_def endInteraction_def
        generatePerformanceReport_state Let_def split: option.splits\<close>)
qed

lemma run_series_inv: "series_inv w \<Longrightarrow> series_inv (run calls w)"
  unfolding run_def by (induction calls arbitrary: w) (simp_all add: exec_series_inv)

lemma constructor_series_inv: "series_inv (PerformanceMetrics_constructor h)"
  by (simp add: series_inv_def nonempty_series_def PerformanceMetrics_constructor_def new_array_def)

lemma record_sample_keys:
  "(case record_sample obj n d of
      Inl e \<Rightarrow> n \<in> set Object_prototype_keys
    | Inr obj' \<Rightarrow> keys obj' = insert n (keys obj)
                 \<and> (if n \<in> set Object_prototype_keys then n \<in> keys obj else True))"
proof (cases "map_of obj n")
  case None
  then show ?thesis
    by (simp add: record_sample_def get_property_def set_property_def update_conv' keys_def dom_update)
next
  case (Some xs)
  then have "n \<in> keys obj" by (auto simp: keys_def dest: map_of_SomeD intro: rev_image_eqI)
  with Some show ?thesis
    by (auto simp: record_sample_def get_property_def keys_set_property)
qed

lemma exec_component_keys:
  "keys (componentLoadTimes (metrics (snd (exec c w))))
     = keys (componentLoadTimes (metrics (snd w))) \<union> set (component_names [c])"
proof -
  obtain now k h this where ck: "c = (now, k)" "w = (h, this)" by (cases c, cases w) auto
  show ?thesis
  proof (cases k)
    case (RecordComponentLoad n d)
    with ck record_sample_keys [where obj = "componentLoadTimes (metrics this)" and n = n and d = d]
    show ?thesis
      by (auto simp: recordComponentLoad_def split: sum.splits if_splits)
  next
    case (RecordElementTiming n d)
    with ck show ?thesis
      by (auto simp: recordElementTiming_def split: sum.splits)
  qed (use ck in \<open>auto simp: startInteraction_def endInteraction_def
        generatePerformanceReport_state Let_def split: option.splits\<close>)
qed

lemma exec_element_keys:
  "keys (elementTimings (metrics (snd (exec c w))))
     = keys (elementTimings (metrics (snd w))) \<union> set (element_names [c])"
proof -
  obtain now k h this where ck: "c = (now, k)" "w = (h, this)" by (cases c, cases w) auto
  show ?thesis
  proof (cases k)
    case (RecordElementTiming n d)
    with ck record_sample_keys [where obj = "elementTimings (metrics this)" and n = n and d = d]
    show ?thesis
      by (auto simp: recordElementTiming_def split: sum.splits if_splits)
  next
    case (RecordComponentLoad n d)
    with ck show ?thesis
      by (auto simp: recordComponentLoad_def split: sum.splits)
  qed (use ck in \<open>auto simp: startInteraction_def endInteraction_def
        generatePerformanceReport_state Let_def split: option.splits\<close>)
qed

lemma component_names_Cons:
  "set (component_names (c # cs)) = set (component_names [c]) \<union> set (component_names cs)"
  by (induction "c # cs" rule: component_names.induct) auto

lemma element_names_Cons:
  "set (element_names (c # cs)) = set (element_names [c]) \<union> set (element_names cs)"
  by (induction "c # cs" rule: element_names.induct) auto

lemma run_component_keys:
  "keys (componentLoadTimes (metrics (snd (run calls w))))
     = keys (componentLoadTimes (metrics (snd w))) \<union> set (component_names calls)"
proof (induction calls arbitrary: w)
  case Nil
  then show ?case by (simp add: run_def)
next
  case (Cons c calls)
  have "run (c # calls) w = run calls (exec c w)" by (simp add: run_def)
  with Cons.IH [of "exec c w"] exec_component_keys [of c w] component_names_Cons [of c calls]
  show ?case by auto
qed

lemma run_element_keys:
  "keys (elementTimings (metrics (snd (run calls w))))
     = keys (elementTimings (metrics (snd w))) \<union> set (element_names calls)"
proof (induction calls arbitrary: w)
  case Nil
  then show ?case by (simp add: run_def)
next
  case (Cons c calls)
  have "run (c # calls) w = run calls (exec c w)" by (simp add: run_def)
  with Cons.IH [of "exec c w"] exec_element_keys [of c w] element_names_Cons [of c calls]
  show ?case by auto
qed

lemma constructor_keys:
  "keys (componentLoadTimes (metrics (snd (PerformanceMetrics_constructor h)))) = {}"
  "keys (elementTimings (metrics (snd (PerformanceMetrics_constructor h)))) = {}"
  by (simp_all add: PerformanceMetrics_constructor_def new_array_def keys_def)

text \<open>
  C9. After any sequence of calls on a new collector every stored series holds at least
  one sample. The names with a stored series are the names under which a sample has been
  recorded (a call with a name inherited from \<open>Object.prototype\<close> raises and records
  nothing). Every report that \<open>generatePerformanceReport()\<close> returns then has exactly
  these names as the keys of its tables \<open>componentStats\<close> and \<open>elementStats\<close> and a
  summary, never \<open>null\<close>, as every value; and a report is returned unless a series is
  longer than the engine's bound on the arguments of a call, in which case the method
  raises a \<open>RangeError\<close>.
\<close>

theorem report_tables_have_summaries:
  "nonempty_series (componentLoadTimes (metrics (snd (run calls (PerformanceMetrics_constructor h)))))
   \<and> nonempty_series (elementTimings (metrics (snd (run calls (PerformanceMetrics_constructor h)))))
   \<and> (case snd (generatePerformanceReport limit date
                  (snd (run calls (PerformanceMetrics_constructor h)))) of
         Inl e \<Rightarrow>
           e = RangeError
           \<and> \<not> (within_limit limit
                   (componentLoadTimes (metrics (snd (run calls (PerformanceMetrics_constructor h)))))
                \<and> within_limit limit
                   (elementTimings (metrics (snd (run calls (PerformanceMetrics_constructor h))))))
       | Inr r \<Rightarrow>
           all_summaries (componentStats r) \<and> all_summaries (elementStats r)
           \<and> keys (componentStats r) = set (component_names calls)
           \<and> keys (elementStats r) = set (element_names calls)
           \<and> within_limit limit
                (componentLoadTimes (metrics (snd (run calls (PerformanceMetrics_constructor h)))))
           \<and> within_limit limit
                (elementTimings (metrics (snd (run calls (PerformanceMetrics_constructor h))))))"
proof -
  let ?pm = "snd (run calls (PerformanceMetrics_constructor h))"
  have inv: "series_inv (run calls (PerformanceMetrics_constructor h))"
    by (rule run_series_inv [OF constructor_series_inv])
  then have nc: "nonempty_series (componentLoadTimes (metrics ?pm))"
    and ne: "nonempty_series (elementTimings (metrics ?pm))"
    by (simp_all add: series_inv_def)
  have e: "all_summaries []" by (simp add: all_summaries_def)
  have kc: "keys (componentLoadTimes (metrics ?pm)) = set (component_names calls)"
    by (simp add: run_component_keys constructor_keys)
  have ke: "keys (elementTimings (metrics ?pm)) = set (element_names calls)"
    by (simp add: run_element_keys constructor_keys)
  have "case snd (generatePerformanceReport limit date ?pm) of
         Inl e \<Rightarrow>
           e = RangeError
           \<and> \<not> (within_limit limit (componentLoadTimes (metrics ?pm))
                \<and> within_limit limit (elementTimings (metrics ?pm)))
       | Inr r \<Rightarrow>
           all_summaries (componentStats r) \<and> all_summaries (elementStats r)
           \<and> keys (componentStats r) = set (component_names calls)
           \<and> keys (elementStats r) = set (element_names calls)
           \<and> within_limit limit (componentLoadTimes (metrics ?pm))
           \<and> within_limit limit (elementTimings (metrics ?pm))"
  proof (cases "stats_loop limit (Object_entries (componentLoadTimes (metrics ?pm))) []")
    case (Inl err)
    from stats_loop_raises [OF Inl] Inl show ?thesis
      by (simp add: generatePerformanceReport_def within_limit_entries)
  next
    case c: (Inr ctable)
    show ?thesis
    proof (cases "stats_loop limit (Object_entries (elementTimings (metrics ?pm))) []")
      case (Inl err)
      from stats_loop_raises [OF Inl] Inl c show ?thesis
        by (simp add: generatePerformanceReport_def within_limit_entries)
    next
      case el: (Inr etable)
      have "all_summaries ctable"
        by (rule stats_loop_summaries [OF e nonempty_series_entries [OF nc] c])
      moreover have "all_summaries etable"
        by (rule stats_loop_summaries [OF e nonempty_series_entries [OF ne] el])
      moreover have "keys ctable = set (component_names calls)"
        using stats_loop_keys [OF c] kc by (simp add: keys_entries keys_Nil)
      moreover have "keys etable = set (element_names calls)"
        using stats_loop_keys [OF el] ke by (simp add: keys_entries keys_Nil)
      moreover have "within_limit limit (componentLoadTimes (metrics ?pm))"
        using stats_loop_within [OF c] by (simp add: within_limit_entries)
      moreover have "within_limit limit (elementTimings (metrics ?pm))"
        using stats_loop_within [OF el] by (simp add: within_limit_entries)
      ultimately show ?thesis
        using c el by (simp add: generatePerformanceReport_def)
    qed
  qed
  with nc ne show ?thesis by simp
qed

theorem report_tables_have_summaries_witness:
  "snd (generatePerformanceReport 125000 ''d''
       (snd (run [(1, RecordComponentLoad ''header'' 12), (2, RecordComponentLoad ''header'' 8),
                  (3, RecordElementTiming ''button'' 3), (4, RecordComponentLoad ''toString'' 5)]
               (PerformanceMetrics_constructor empty_store))))
     = Inr \<lparr>report_interactions = 0,
            componentStats = [(''header'', Some \<lparr>min_stat = 8, max_stat = 12, avg = 10, count = 2\<rparr>)],
            elementStats = [(''button'', Some \<lparr>min_stat = 3, max_stat = 3, avg = 3, count = 1\<rparr>)],
            report_timestamp = ''d''\<rparr>
   \<and> component_names
        [(1, RecordComponentLoad ''header'' 12), (2, RecordComponentLoad ''header'' 8),
         (3, RecordElementTiming ''button'' 3), (4, RecordComponentLoad ''toString'' 5)]
       = [''header'', ''header'']
   \<and> snd (generatePerformanceReport 1 ''d''
       (snd (run [(1, RecordComponentLoad ''header'' 12), (2, RecordComponentLoad ''header'' 8),
                  (3, RecordElementTiming ''button'' 3), (4, RecordComponentLoad ''toString'' 5)]
               (PerformanceMetrics_constructor empty_store))))
     = Inl RangeError"
proof -
  let ?calls = "[(1::real, RecordComponentLoad ''header'' 12), (2, RecordComponentLoad ''header'' 8),
                 (3, RecordElementTiming ''button'' 3), (4, RecordComponentLoad ''toString'' 5)]"
  have state: "snd (run ?calls (PerformanceMetrics_constructor empty_store))
      = \<lparr>metrics = \<lparr>interactions = 0, componentLoadTimes = [(''header'', [12, 8])],
                     elementTimings = [(''button'', [3])]\<rparr>,
         currentInteraction = None\<rparr>"
    by (simp add: run_def PerformanceMetrics_constructor_def empty_store_def new_array_def
        recordComponentLoad_def recordElementTiming_def record_sample_def get_property_def
        set_property_def Object_prototype_keys_def)
  have header: "array_index ''header'' = None" and button: "array_index ''button'' = None"
    by (simp_all add: array_index_def is_digit_def)
  from report_tables_have_summaries [of ?calls empty_store 125000 "''d''"]
    report_tables_have_summaries [of ?calls empty_store 1 "''d''"]
  show ?thesis
    by (simp add: state generatePerformanceReport_def Object_entries_def
        header button set_property_def Math_min_def Math_max_def reduce_add_def
        Object_prototype_keys_def)
qed

section \<open>The report builder\<close>

lemma builder_run_screenshots:
  "screenshots (builder_run calls this) = screenshots this @ added_screenshots calls"
  unfolding builder_run_def
proof (induction calls arbitrary: this)
  case Nil
  then show ?case by simp
next
  case (Cons c cs)
  then show ?case
    by (cases c) (simp_all add: addScreenshot_def setPerformanceData_def setValidationResults_def)
qed

lemma builder_run_results:
  "validationResults (builder_run calls this)
     = (if results_calls calls = [] then validationResults this
        else Some (last (results_calls calls)))"
  unfolding builder_run_def
proof (induction calls arbitrary: this)
  case Nil
  then show ?case by simp
next
  case (Cons c cs)
  then show ?case
    by (cases c) (simp_all add: addScreenshot_def setPerformanceData_def setValidationResults_def)
qed

lemma generateReportHTML_builder_run:
  "generateReportHTML (builder_run calls HTMLReportGenerator_constructor)
     = (if results_calls calls = [] then Inl TypeError
        else Inr (render_document (last (results_calls calls)) (added_screenshots calls)))"
  by (simp add: generateReportHTML_def builder_run_results builder_run_screenshots
      HTMLReportGenerator_constructor_def)

text \<open>
  C3. On a new builder, as long as \<open>setValidationResults\<close> has not been called (whatever
  screenshots and performance data have been set), \<open>generateReportHTML()\<close> raises a
  \<open>TypeError\<close>, from reading a field of \<open>null\<close>, and returns no document at all; once
  \<open>setValidationResults\<close> has been called it returns the document rendered from the results
  set last.
\<close>

theorem generateReportHTML_needs_results:
  "(results_calls calls = [] \<longrightarrow>
      generateReportHTML (builder_run calls HTMLReportGenerator_constructor) = Inl TypeError)
   \<and> (results_calls calls \<noteq> [] \<longrightarrow>
      generateReportHTML (builder_run calls HTMLReportGenerator_constructor)
        = Inr (render_document (last (results_calls calls)) (added_screenshots calls)))
   \<and> generateReportHTML (setValidationResults r this) = Inr (render_document r (screenshots this))"
  by (simp add: generateReportHTML_builder_run)
    (simp add: generateReportHTML_def setValidationResults_def)

theorem generateReportHTML_needs_results_witness:
  "generateReportHTML HTMLReportGenerator_constructor = Inl TypeError
   \<and> generateReportHTML
        (builder_run [AddScreenshot ''login'' ''data:a'' ''t1'', SetPerformanceData sample_report]
           HTMLReportGenerator_constructor) = Inl TypeError
   \<and> generateReportHTML
        (builder_run [SetValidationResults \<lparr>total_checks = 3, successful = 2, failed = 1, skipped = 0\<rparr>]
           HTMLReportGenerator_constructor)
       = Inr (render_document \<lparr>total_checks = 3, successful = 2, failed = 1, skipped = 0\<rparr> [])"
  using generateReportHTML_needs_results [of "[]"]
    generateReportHTML_needs_results
      [of "[AddScreenshot ''login'' ''data:a'' ''t1'', SetPerformanceData sample_report]"]
    generateReportHTML_needs_results
      [of "[SetValidationResults \<lparr>total_checks = 3, successful = 2, failed = 1, skipped = 0\<rparr>]"]
  by (simp add: builder_run_def HTMLReportGenerator_constructor_def)

subsection \<open>What the document contains\<close>

lemma ToString_7: "ToString 7 = ''7''"
  by (simp add: ToString_def digits.simps)

lemma ToString_2: "ToString 2 = ''2''"
  by (simp add: ToString_def digits.simps)

lemma ToString_1: "ToString 1 = ''1''"
  by (simp add: ToString_def digits.simps)

lemma screenshot_img_src:
  "\<exists>x y. screenshot_img s = x @ ''<img src=\"'' @ dataUrl s @ ''\"'' @ y"
  by (rule exI [of _ "''\<newline>                ''"]) (simp add: screenshot_img_def)

lemma summary_section_rows:
  "\<exists>p q r s. summary_section vr
      = p @ ''<tr><th>Successful</th><td>'' @ ToString (successful vr) @ ''</td></tr>''
        @ q @ ''<tr><th>Failed</th><td>'' @ ToString (failed vr) @ ''</td></tr>''
        @ r @ ''<tr><th>Skipped</th><td>'' @ ToString (skipped vr) @ ''</td></tr>'' @ s"
  apply (rule exI [of _ "''          <div class=\"report-section\">\<newline>'' @
        ''            <h2>Validation Summary</h2>\<newline>'' @
        ''            <div class=\"row\">\<newline>'' @
        ''              <div class=\"col-md-6\">\<newline>'' @
        ''                <canvas id=\"summaryChart\"></canvas>\<newline>'' @
        ''              </div>\<newline>'' @
        ''              <div class=\"col-md-6\">\<newline>'' @
        ''                <table class=\"table table-bordered\">\<newline>'' @
        ''                  <tr><th>Total Checks</th><td>'' @
        ToString (total_checks vr) @
        ''</td></tr>\<newline>'' @
        ''                  ''"])
  apply (rule exI [of _ "''\<newline>                  ''"])
  apply (rule exI [of _ "''\<newline>                  ''"])
  apply (simp add: summary_section_def)
  done

lemma screenshots_section_two:
  "\<exists>g1 g2. screenshots_section [sA, sB] = g1 @ screenshot_img sA @ screenshot_img sB @ g2"
  apply (rule exI [of _ "''          <div class=\"report-section\">\<newline>'' @
        ''            <h2>Screenshots</h2>\<newline>'' @
        ''            <div class=\"screenshot-gallery\">\<newline>'' @
        ''              ''"])
  apply (simp add: screenshots_section_def)
  done

text \<open>
  C8. Let the calls to a new builder add the screenshots \<open>("login", imgA)\<close> and
  \<open>("dashboard", imgB)\<close>, in this order, and let the validation results set last be
  \<open>{total: 10, successful: 7, failed: 2, skipped: 1}\<close>; the calls may come in any order
  otherwise and may set performance data anywhere. Then \<open>generateReportHTML()\<close> returns a
  document that holds the summary section, in which the rows of the successful, failed
  and skipped checks show \<open>7\<close>, \<open>2\<close> and \<open>1\<close>, and later the gallery with the image of
  \<open>imgA\<close> directly followed by the image of \<open>imgB\<close>.
\<close>

theorem report_shows_results_and_screenshots:
  assumes "added_screenshots calls
             = [\<lparr>shot_name = ''login'', dataUrl = imgA, timestamp = tA\<rparr>,
                \<lparr>shot_name = ''dashboard'', dataUrl = imgB, timestamp = tB\<rparr>]"
    and "results_calls calls \<noteq> []"
    and "last (results_calls calls) = \<lparr>total_checks = 10, successful = 7, failed = 2, skipped = 1\<rparr>"
  shows "\<exists>html head summary middle gallery rest.
      generateReportHTML (builder_run calls HTMLReportGenerator_constructor) = Inr html
      \<and> html = head @ summary @ middle @ gallery @ rest
      \<and> summary = summary_section \<lparr>total_checks = 10, successful = 7, failed = 2, skipped = 1\<rparr>
      \<and> (\<exists>p q r s. summary = p @ ''<tr><th>Successful</th><td>7</td></tr>''
                            @ q @ ''<tr><th>Failed</th><td>2</td></tr>''
                            @ r @ ''<tr><th>Skipped</th><td>1</td></tr>'' @ s)
      \<and> (\<exists>g1 a1 a2 b1 b2 g2.
            gallery = g1 @ (a1 @ ''<img src=\"'' @ imgA @ ''\"'' @ a2)
                         @ (b1 @ ''<img src=\"'' @ imgB @ ''\"'' @ b2) @ g2)"
proof -
  let ?vr = "\<lparr>total_checks = 10, successful = 7, failed = 2, skipped = 1\<rparr>"
  let ?sA = "\<lparr>shot_name = ''login'', dataUrl = imgA, timestamp = tA\<rparr>"
  let ?sB = "\<lparr>shot_name = ''dashboard'', dataUrl = imgB, timestamp = tB\<rparr>"
  have doc: "generateReportHTML (builder_run calls HTMLReportGenerator_constructor)
      = Inr (document_head @ summary_section ?vr @ (section_gap @ performance_section @ section_gap)
             @ screenshots_section [?sA, ?sB]
             @ (section_gap @ modal_section @ script_gap @ script_section ?vr @ document_tail))"
    using assms by (simp add: generateReportHTML_builder_run render_document_def)
  from summary_section_rows [of ?vr] obtain p q r s where rows:
    "summary_section ?vr
      = p @ ''<tr><th>Successful</th><td>7</td></tr>''
        @ q @ ''<tr><th>Failed</th><td>2</td></tr>''
        @ r @ ''<tr><th>Skipped</th><td>1</td></tr>'' @ s"
    by (auto simp: ToString_7 ToString_2 ToString_1)
  obtain g1 g2 where g:
    "screenshots_section [?sA, ?sB] = g1 @ screenshot_img ?sA @ screenshot_img ?sB @ g2"
    using screenshots_section_two by blast
  obtain a1 a2 where a: "screenshot_img ?sA = a1 @ ''<img src=\"'' @ imgA @ ''\"'' @ a2"
    using screenshot_img_src [of ?sA] by auto
  obtain b1 b2 where b: "screenshot_img ?sB = b1 @ ''<img src=\"'' @ imgB @ ''\"'' @ b2"
    using screenshot_img_src [of ?sB] by auto
  have gallery:
    "screenshots_section [?sA, ?sB]
       = g1 @ (a1 @ ''<img src=\"'' @ imgA @ ''\"'' @ a2)
            @ (b1 @ ''<img src=\"'' @ imgB @ ''\"'' @ b2) @ g2"
    by (simp only: g a b)
  have rows_ex: "\<exists>p q r s. summary_section ?vr
      = p @ ''<tr><th>Successful</th><td>7</td></tr>''
        @ q @ ''<tr><th>Failed</th><td>2</td></tr>''
        @ r @ ''<tr><th>Skipped</th><td>1</td></tr>'' @ s"
    using rows by blast
  have gallery_ex: "\<exists>g1 a1 a2 b1 b2 g2.
      screenshots_section [?sA, ?sB]
        = g1 @ (a1 @ ''<img src=\"'' @ imgA @ ''\"'' @ a2)
             @ (b1 @ ''<img src=\"'' @ imgB @ ''\"'' @ b2) @ g2"
    using gallery by blast
  show ?thesis
    apply (rule exI [of _ "document_head @ summary_section ?vr
             @ (section_gap @ performance_section @ section_gap)
             @ screenshots_section [?sA, ?sB]
             @ (section_gap @ modal_section @ script_gap @ script_section ?vr @ document_tail)"])
    apply (rule exI [of _ document_head])
    apply (rule exI [of _ "summary_section ?vr"])
    apply (rule exI [of _ "section_gap @ performance_section @ section_gap"])
    apply (rule exI [of _ "screenshots_section [?sA, ?sB]"])
    apply (rule exI [of _ "section_gap @ modal_section @ script_gap @ script_section ?vr @ document_tail"])
    apply (rule conjI, rule doc)
    apply (rule conjI, rule refl)
    apply (rule conjI, rule refl)
    apply (rule conjI, rule rows_ex)
    apply (rule gallery_ex)
    done
qed

theorem report_shows_results_and_screenshots_witness:
  "\<exists>html head summary middle gallery rest.
      generateReportHTML
        (builder_run [SetPerformanceData sample_report,
                      AddScreenshot ''login'' ''data:A'' ''t1'',
                      SetValidationResults \<lparr>total_checks = 10, successful = 7, failed = 2, skipped = 1\<rparr>,
                      AddScreenshot ''dashboard'' ''data:B'' ''t2'']
           HTMLReportGenerator_constructor) = Inr html
      \<and> html = head @ summary @ middle @ gallery @ rest
      \<and> summary = summary_section \<lparr>total_checks = 10, successful = 7, failed = 2, skipped = 1\<rparr>
      \<and> (\<exists>p q r s. summary = p @ ''<tr><th>Successful</th><td>7</td></tr>''
                            @ q @ ''<tr><th>Failed</th><td>2</td></tr>''
                            @ r @ ''<tr><th>Skipped</th><td>1</td></tr>'' @ s)
      \<and> (\<exists>g1 a1 a2 b1 b2 g2.
            gallery = g1 @ (a1 @ ''<img src=\"'' @ ''data:A'' @ ''\"'' @ a2)
                         @ (b1 @ ''<img src=\"'' @ ''data:B'' @ ''\"'' @ b2) @ g2)"
proof -
  let ?calls = "[SetPerformanceData sample_report,
                 AddScreenshot ''login'' ''data:A'' ''t1'',
                 SetValidationResults \<lparr>total_checks = 10, successful = 7, failed = 2, skipped = 1\<rparr>,
                 AddScreenshot ''dashboard'' ''data:B'' ''t2'']"
  have shots: "added_screenshots ?calls
      = [\<lparr>shot_name = ''login'', dataUrl = ''data:A'', timestamp = ''t1''\<rparr>,
         \<lparr>shot_name = ''dashboard'', dataUrl = ''data:B'', timestamp = ''t2''\<rparr>]"
    by simp
  have called: "results_calls ?calls \<noteq> []"
    by simp
  have latest: "last (results_calls ?calls)
      = \<lparr>total_checks = 10, successful = 7, failed = 2, skipped = 1\<rparr>"
    by simp
  from report_shows_results_and_screenshots [OF shots called latest] show ?thesis .
qed

end
